theory Spec2Isabelle
  imports Main "HOL-Library.Word"
begin

section \<open>Data model\<close>

text \<open>
  The program is a gRPC load generator: \<open>CallSimultaneous\<close> starts \<open>NUM_REQUESTS\<close>
  goroutines, each of which runs \<open>GetSapphireRound\<close> once and sends the resulting
  \<open>ThreadStatus\<close> on a buffered channel; the main goroutine then drains the channel and
  counts the statuses that carry an error.

  Go's \<open>error\<close> interface is modelled by a small datatype: an opaque error with its text,
  and the wrapping that \<open>fmt.Errorf\<close> with \<open>%w\<close> performs. A nil error is \<open>None\<close>.
  A run-time panic is a value of its own, never a \<open>ThreadStatus\<close>. Durations are
  integers (nanoseconds). The field \<open>times\<close> of \<open>ThreadStatus\<close> is written \<open>times'\<close>,
  since \<open>times\<close> is the multiplication of HOL.
\<close>

type_synonym bytes = "8 word list"
type_synonym uint64 = "64 word"
type_synonym Duration = int

datatype error = Err string | Wrap string error

datatype panic = NilPointerDereference | ChanSizeOutOfRange | NegativeWaitGroupCounter

record ApiTimes =
  Connect :: Duration
  GetBlock :: Duration
  GetTransactions :: Duration
  GetEvents :: Duration
  Parse :: Duration

record ThreadStatus =
  ID :: uint64
  err :: "error option"
  msg :: string
  times' :: ApiTimes

text \<open>The zero value \<open>ApiTimes{}\<close>.\<close>

definition ApiTimes_zero :: ApiTimes where
  "ApiTimes_zero = \<lparr>Connect = 0, GetBlock = 0, GetTransactions = 0, GetEvents = 0, Parse = 0\<rparr>"

subsection \<open>Values exchanged with the node\<close>

record Header =
  h_Version :: "16 word"
  h_Namespace :: string
  h_Round :: uint64
  h_Timestamp :: uint64
  h_PreviousHash :: string
  h_IORoot :: string
  h_StateRoot :: string
  h_MessagesHash :: string
  h_InMessagesHash :: string

record PlainEvent =
  pe_Key :: bytes
  pe_Value :: bytes

record RawEvent =
  re_Key :: bytes
  re_Value :: bytes
  re_TxHash :: string

record TransactionWithResults =
  tr_Tx :: bytes
  tr_Result :: bytes
  tr_Events :: "PlainEvent list"

record Event =
  ev_Module :: string
  ev_Code :: "32 word"
  ev_Value :: bytes
  ev_TxHash :: "string option"

record RuntimeBlockHeader =
  Version :: "16 word"
  Namespace :: string
  Round :: uint64
  Timestamp :: uint64
  Hash :: string
  PreviousHash :: string
  IORoot :: string
  StateRoot :: string
  MessagesHash :: string
  InMessagesHash :: string

record RuntimeTransactionWithResults =
  rt_Tx :: bytes
  rt_Result :: bytes
  rt_Events :: "Event list"

record BlockData =
  bd_Header :: RuntimeBlockHeader
  NumTransactions :: int

text \<open>
  The functions of the imported packages that the program calls. They are not part of
  this repository, so they are parameters of the model: \<open>UnmarshalRaw\<close> of the SDK's
  \<open>types.Event\<close>, the two \<open>cbor.Unmarshal\<close> calls whose errors the program discards,
  \<open>Header.EncodedHash\<close>, and \<open>ExtractRound\<close>, which returns a pointer and an error
  (either can be nil).
\<close>

record lib =
  UnmarshalRaw :: "bytes \<Rightarrow> bytes \<Rightarrow> string option \<Rightarrow> error + Event"
  cbor_Unmarshal_Tx :: "bytes \<Rightarrow> bytes"
  cbor_Unmarshal_Result :: "bytes \<Rightarrow> bytes"
  EncodedHash :: "Header \<Rightarrow> string"
  ExtractRound :: "RuntimeBlockHeader \<Rightarrow> RuntimeTransactionWithResults list \<Rightarrow> Event list
                     \<Rightarrow> BlockData option \<times> error option"

text \<open>
  What the network and the clock do during one call of \<open>GetSapphireRound\<close>: the answer
  of \<open>Dial\<close> and of the three remote calls for a height (a call that runs into the
  deadline of its context answers with an error), and the monotonic clock, where
  \<open>clock k\<close> is what the \<open>k\<close>-th reading of the call returns (\<open>time.Now\<close> and
  \<open>time.Since\<close> read it once each), in nanoseconds.
\<close>

record rpc_env =
  clock :: "nat \<Rightarrow> int"
  Dial :: "error option"
  rpc_GetBlock :: "uint64 \<Rightarrow> error + Header"
  rpc_GetTransactionsWithResults :: "uint64 \<Rightarrow> error + TransactionWithResults list"
  rpc_GetEvents :: "uint64 \<Rightarrow> error + RawEvent list"

section \<open>The parameter generator\<close>

text \<open>\<open>RandomSapphireHeight\<close>, as a function of the value \<open>u\<close> that \<open>rand.Uint64()\<close> draws.\<close>

definition RandomSapphireHeight :: "uint64 \<Rightarrow> uint64" where
  "RandomSapphireHeight u = 500000 + (u mod 400000)"

section \<open>Decoding\<close>

text \<open>The inner loop over \<open>tx.Events\<close>: an event that does not unmarshal is skipped.\<close>

fun tx_events :: "lib \<Rightarrow> PlainEvent list \<Rightarrow> Event list" where
  "tx_events L [] = []"
| "tx_events L (tx_ev # rest) =
     (case UnmarshalRaw L (pe_Key tx_ev) (pe_Value tx_ev) None of
        Inl e \<Rightarrow> tx_events L rest
      | Inr ev \<Rightarrow> ev # tx_events L rest)"

definition nexus_tx :: "lib \<Rightarrow> TransactionWithResults \<Rightarrow> RuntimeTransactionWithResults" where
  "nexus_tx L tx =
     \<lparr>rt_Tx = cbor_Unmarshal_Tx L (tr_Tx tx),
      rt_Result = cbor_Unmarshal_Result L (tr_Result tx),
      rt_Events = tx_events L (tr_Events tx)\<rparr>"

text \<open>
  The loop over \<open>blockEvents\<close>: the first event that does not unmarshal ends the
  function with a nil block and the wrapped error.
\<close>

fun block_events :: "lib \<Rightarrow> RawEvent list \<Rightarrow> error + Event list" where
  "block_events L [] = Inr []"
| "block_events L (rawEv # rest) =
     (case UnmarshalRaw L (re_Key rawEv) (re_Value rawEv) (Some (re_TxHash rawEv)) of
        Inl e \<Rightarrow> Inl (Wrap ''failed to unmarshal event'' e)
      | Inr ev \<Rightarrow>
          (case block_events L rest of
             Inl e \<Rightarrow> Inl e
           | Inr evs \<Rightarrow> Inr (ev # evs)))"

definition TryNexusParseBlock ::
  "lib \<Rightarrow> Header \<Rightarrow> TransactionWithResults list \<Rightarrow> RawEvent list \<Rightarrow> BlockData option \<times> error option"
where
  "TryNexusParseBlock L block blockTxs blockEvents =
     (let header = \<lparr>Version = h_Version block,
                     Namespace = h_Namespace block,
                     Round = h_Round block,
                     Timestamp = h_Timestamp block,
                     Hash = EncodedHash L block,
                     PreviousHash = h_PreviousHash block,
                     IORoot = h_IORoot block,
                     StateRoot = h_StateRoot block,
                     MessagesHash = h_MessagesHash block,
                     InMessagesHash = h_InMessagesHash block\<rparr>;
          txs = map (nexus_tx L) blockTxs
      in case block_events L blockEvents of
           Inl e \<Rightarrow> (None, Some e)
         | Inr events \<Rightarrow> ExtractRound L header txs events)"

section \<open>The stage pipeline\<close>

fun show_nat :: "nat \<Rightarrow> string" where
  "show_nat n = (if n < 10 then [char_of (48 + n)]
                 else show_nat (n div 10) @ [char_of (48 + n mod 10)])"

declare show_nat.simps [simp del]

definition show_int :: "int \<Rightarrow> string" where
  "show_int i = (if i < 0 then CHR ''-'' # show_nat (nat (- i)) else show_nat (nat i))"

text \<open>\<open>fmt.Sprintf("Round: %d, NumTransactions: %d, Hash: %s", ...)\<close>.\<close>

definition Sprintf_round :: "BlockData \<Rightarrow> string" where
  "Sprintf_round bd =
     ''Round: '' @ show_nat (unat (Round (bd_Header bd))) @
     '', NumTransactions: '' @ show_int (NumTransactions bd) @
     '', Hash: '' @ Hash (bd_Header bd)"

text \<open>
  \<open>GetSapphireRound\<close>. The result is either the status that the function returns or the
  panic that ends it. The block that \<open>GetBlock\<close> answers is represented by its header,
  the only part the program reads.
\<close>

definition GetSapphireRound :: "lib \<Rightarrow> rpc_env \<Rightarrow> uint64 \<Rightarrow> panic + ThreadStatus" where
  "GetSapphireRound L E height =
     (let status = \<lparr>ID = height, err = None, msg = [], times' = ApiTimes_zero\<rparr>;
          start = clock E 0
      in case Dial E of
           Some e \<Rightarrow> Inr (status\<lparr>err := Some e\<rparr>)
         | None \<Rightarrow>
     (let status = status\<lparr>times' := (times' status)\<lparr>Connect := clock E 1 - start\<rparr>\<rparr>;
          start = clock E 2
      in case rpc_GetBlock E height of
           Inl e \<Rightarrow> Inr (status\<lparr>err := Some e\<rparr>)
         | Inr block \<Rightarrow>
     (let status = status\<lparr>times' := (times' status)\<lparr>GetBlock := clock E 3 - start\<rparr>\<rparr>;
          start = clock E 4
      in case rpc_GetTransactionsWithResults E height of
           Inl e \<Rightarrow> Inr status
         | Inr txs \<Rightarrow>
     (let status = status\<lparr>times' := (times' status)\<lparr>GetTransactions := clock E 5 - start\<rparr>\<rparr>;
          start = clock E 6
      in case rpc_GetEvents E height of
           Inl e \<Rightarrow> Inr status
         | Inr events \<Rightarrow>
     (let status = status\<lparr>times' := (times' status)\<lparr>GetEvents := clock E 7 - start\<rparr>\<rparr>;
          start = clock E 8
      in case TryNexusParseBlock L block txs events of
           (None, err') \<Rightarrow> Inl NilPointerDereference
         | (Some bd, err') \<Rightarrow>
             Inr (status\<lparr>msg := Sprintf_round bd,
                         times' := (times' status)\<lparr>Parse := clock E 9 - start\<rparr>\<rparr>))))))"


subsection \<open>Stages, their failures and their measured times\<close>

text \<open>
  The five stages of the pipeline in the order the function runs them. A stage is
  reached when all earlier ones succeeded; \<open>first_failure\<close> is the first stage whose
  call returns a non-nil error, with that error. \<open>elapsed E i\<close> is what
  \<open>time.Since(start)\<close> gives for stage \<open>i\<close>: the difference of the two clock readings
  that surround it, and \<open>duration i\<close> selects the field of \<open>ApiTimes\<close> that belongs to it.
\<close>

datatype stage = StConnect | StGetBlock | StGetTransactions | StGetEvents | StDecode

fun stage_index :: "stage \<Rightarrow> nat" where
  "stage_index StConnect = 0"
| "stage_index StGetBlock = 1"
| "stage_index StGetTransactions = 2"
| "stage_index StGetEvents = 3"
| "stage_index StDecode = 4"

fun duration :: "stage \<Rightarrow> ApiTimes \<Rightarrow> Duration" where
  "duration StConnect t = Connect t"
| "duration StGetBlock t = GetBlock t"
| "duration StGetTransactions t = GetTransactions t"
| "duration StGetEvents t = GetEvents t"
| "duration StDecode t = Parse t"

definition elapsed :: "rpc_env \<Rightarrow> stage \<Rightarrow> Duration" where
  "elapsed E i = clock E (2 * stage_index i + 1) - clock E (2 * stage_index i)"

definition first_failure :: "lib \<Rightarrow> rpc_env \<Rightarrow> uint64 \<Rightarrow> (stage \<times> error) option" where
  "first_failure L E height =
     (case Dial E of
        Some e \<Rightarrow> Some (StConnect, e)
      | None \<Rightarrow>
     (case rpc_GetBlock E height of
        Inl e \<Rightarrow> Some (StGetBlock, e)
      | Inr block \<Rightarrow>
     (case rpc_GetTransactionsWithResults E height of
        Inl e \<Rightarrow> Some (StGetTransactions, e)
      | Inr txs \<Rightarrow>
     (case rpc_GetEvents E height of
        Inl e \<Rightarrow> Some (StGetEvents, e)
      | Inr events \<Rightarrow>
     (case snd (TryNexusParseBlock L block txs events) of
        Some e \<Rightarrow> Some (StDecode, e)
      | None \<Rightarrow> None)))))"

subsection \<open>Fixtures for concrete runs\<close>

text \<open>
  A library in which an event with an empty key does not unmarshal and \<open>ExtractRound\<close>
  always succeeds, a block header, and a network that answers every call, with a clock
  that advances by 7ns between consecutive readings.
\<close>

definition lib0 :: lib where
  "lib0 = \<lparr>UnmarshalRaw = (\<lambda>k v h. if k = [] then Inl (Err ''empty key'')
                                 else Inr \<lparr>ev_Module = ''core'', ev_Code = 1, ev_Value = v, ev_TxHash = h\<rparr>),
           cbor_Unmarshal_Tx = (\<lambda>b. b),
           cbor_Unmarshal_Result = (\<lambda>b. b),
           EncodedHash = (\<lambda>h. ''c0ffee''),
           ExtractRound = (\<lambda>hdr txs evs. (Some \<lparr>bd_Header = hdr, NumTransactions = int (length txs)\<rparr>, None))\<rparr>"

definition header0 :: Header where
  "header0 = \<lparr>h_Version = 0, h_Namespace = ''f80306c9858e7279'', h_Round = 600000,
               h_Timestamp = 1700000000, h_PreviousHash = ''aa'', h_IORoot = ''bb'',
               h_StateRoot = ''cc'', h_MessagesHash = ''dd'', h_InMessagesHash = ''ee''\<rparr>"

definition env_ok :: rpc_env where
  "env_ok = \<lparr>clock = (\<lambda>k. 100 + 7 * int k),
              Dial = None,
              rpc_GetBlock = (\<lambda>h. Inr header0),
              rpc_GetTransactionsWithResults = (\<lambda>h. Inr []),
              rpc_GetEvents = (\<lambda>h. Inr [])\<rparr>"

definition env_dial_fails :: rpc_env where
  "env_dial_fails = env_ok\<lparr>Dial := Some (Err ''connection refused'')\<rparr>"

definition env_block_fails :: rpc_env where
  "env_block_fails = env_ok\<lparr>rpc_GetBlock := (\<lambda>h. Inl (Err ''context deadline exceeded''))\<rparr>"

definition env_txs_fail :: rpc_env where
  "env_txs_fail = env_ok\<lparr>rpc_GetTransactionsWithResults := (\<lambda>h. Inl (Err ''context deadline exceeded''))\<rparr>"

definition env_events_fail :: rpc_env where
  "env_events_fail = env_ok\<lparr>rpc_GetEvents := (\<lambda>h. Inl (Err ''unavailable''))\<rparr>"

definition env_bad_event :: rpc_env where
  "env_bad_event = env_ok\<lparr>rpc_GetEvents := (\<lambda>h. Inr [\<lparr>re_Key = [], re_Value = [1], re_TxHash = ''ab''\<rparr>])\<rparr>"


section \<open>The scheduler and the aggregator\<close>

text \<open>
  \<open>CallSimultaneous\<close> runs in the main goroutine and starts one goroutine per request.
  The goroutines run interleaved with it, so the function is modelled as a transition
  system: the state holds the program counter of the main goroutine and of every started
  goroutine, the buffered channel \<open>ch\<close>, the counter of the wait group \<open>wg\<close>, the local
  \<open>num_errors\<close>, the wall clock, and what the process has done so far (the statuses it
  has read from the channel, the lines it has printed, the times of the \<open>go\<close> statements).

  The settings are \<open>NUM_REQUESTS\<close> and \<open>DELAY\<close>; \<open>call_f j\<close> is what
  \<open>call_f(subctx, parameter_f())\<close> evaluates to in the goroutine that iteration \<open>j\<close>
  starts: a status, or a panic. (\<open>TIMEOUT\<close> only bounds how long that call takes: a call
  that exceeds it returns a status with the deadline error.) \<open>max_chan_size\<close> is the
  largest buffer size that \<open>make(chan ThreadStatus, n)\<close> accepts: a constant of the Go
  runtime and of the platform, beyond which \<open>make\<close> panics as it does for a negative
  size.
\<close>

record config =
  NUM_REQUESTS :: int
  DELAY :: Duration
  call_f :: "nat \<Rightarrow> panic + ThreadStatus"
  max_chan_size :: int

datatype main_pc =
    Start
  | MakeChan
  | Launch nat
  | Sleep nat
  | Wait
  | Receive nat
  | Returned
  | Exited

datatype task_pc =
    Calling
  | Sending ThreadStatus
  | Sent
  | Cancelled
  | Finished

datatype line =
    TimesLine ApiTimes
  | MsgLine string
  | ThreadLine uint64 error
  | TotalTimeLine Duration
  | ErrorsLine int int
  | RateLine int Duration

record process =
  mpc :: main_pc
  tasks :: "task_pc list"
  ch :: "ThreadStatus list"
  wg :: int
  num_errors :: int
  recvd :: "ThreadStatus list"
  stdout :: "line list"
  wall_clock :: int
  started :: int
  launched_at :: "int list"
  crashed :: "panic option"

definition initial :: "int \<Rightarrow> process" where
  "initial t0 = \<lparr>mpc = Start, tasks = [], ch = [], wg = 0, num_errors = 0, recvd = [],
                 stdout = [], wall_clock = t0, started = 0, launched_at = [], crashed = None\<rparr>"

text \<open>
  A panic that no goroutine recovers ends the whole process. (The deferred \<open>wg.Done()\<close>
  of a panicking goroutine runs before the runtime ends the process; the model ends the
  process in the same step.)
\<close>

definition crash :: "panic \<Rightarrow> process \<Rightarrow> process" where
  "crash p s = s\<lparr>crashed := Some p\<rparr>"

text \<open>The three lines that the loop of the aggregator prints for one status.\<close>

definition status_lines :: "ThreadStatus \<Rightarrow> line list" where
  "status_lines status =
     [TimesLine (times' status), MsgLine (msg status)] @
     (case err status of None \<Rightarrow> [] | Some e \<Rightarrow> [ThreadLine (ID status) e])"

text \<open>
  One step of the main goroutine. \<open>Start\<close> is \<open>start := time.Now()\<close> in \<open>main\<close>;
  \<open>MakeChan\<close> is \<open>make(chan ThreadStatus, NUM_REQUESTS)\<close>, which panics on a negative
  size and on a size beyond \<open>max_chan_size\<close>; \<open>Launch i\<close> is the loop test and, inside the loop, \<open>wg.Add(1)\<close> and the \<open>go\<close>
  statement; \<open>Sleep i\<close> is \<open>time.Sleep(DELAY)\<close>, which lasts at least \<open>DELAY\<close> and
  returns at once for a negative one; \<open>Wait\<close> is \<open>wg.Wait()\<close>, which blocks while the
  counter is not zero; \<open>Receive i\<close> is the test of the second loop and its body, whose
  receive blocks while the channel is empty; \<open>Returned\<close> is the rest of \<open>main\<close>, which
  prints the summary and returns. A blocked step leaves the state as it is.
\<close>

definition main_step :: "config \<Rightarrow> process \<Rightarrow> process" where
  "main_step C s =
     (case mpc s of
        Start \<Rightarrow> s\<lparr>started := wall_clock s, mpc := MakeChan\<rparr>
      | MakeChan \<Rightarrow>
          if NUM_REQUESTS C < 0 \<or> max_chan_size C < NUM_REQUESTS C
          then crash ChanSizeOutOfRange s
          else s\<lparr>mpc := Launch 0\<rparr>
      | Launch i \<Rightarrow>
          if int i < NUM_REQUESTS C
          then s\<lparr>wg := wg s + 1, tasks := tasks s @ [Calling],
                 launched_at := launched_at s @ [wall_clock s], mpc := Sleep i\<rparr>
          else s\<lparr>mpc := Wait\<rparr>
      | Sleep i \<Rightarrow> s\<lparr>wall_clock := wall_clock s + max 0 (DELAY C), mpc := Launch (Suc i)\<rparr>
      | Wait \<Rightarrow> if wg s = 0 then s\<lparr>mpc := Receive 0\<rparr> else s
      | Receive i \<Rightarrow>
          if int i < NUM_REQUESTS C
          then (case ch s of
                  [] \<Rightarrow> s
                | status # rest \<Rightarrow>
                    s\<lparr>ch := rest, recvd := recvd s @ [status],
                      stdout := stdout s @ status_lines status,
                      num_errors := (if err status \<noteq> None then num_errors s + 1 else num_errors s),
                      mpc := Receive (Suc i)\<rparr>)
          else s\<lparr>mpc := Returned\<rparr>
      | Returned \<Rightarrow>
          s\<lparr>stdout := stdout s @ [TotalTimeLine (wall_clock s - started s),
                                   ErrorsLine (num_errors s) (NUM_REQUESTS C),
                                   RateLine (NUM_REQUESTS C) (wall_clock s - started s)],
            mpc := Exited\<rparr>
      | Exited \<Rightarrow> s)"

text \<open>
  One step of the goroutine that iteration \<open>j\<close> started: the call, the send on the
  channel (which blocks while the buffer is full), \<open>cancel()\<close>, and the deferred
  \<open>wg.Done()\<close>.
\<close>

definition task_step :: "config \<Rightarrow> nat \<Rightarrow> process \<Rightarrow> process" where
  "task_step C j s =
     (if j < length (tasks s)
      then (case tasks s ! j of
              Calling \<Rightarrow>
                (case call_f C j of
                   Inl p \<Rightarrow> crash p s
                 | Inr status \<Rightarrow> s\<lparr>tasks := (tasks s)[j := Sending status]\<rparr>)
            | Sending status \<Rightarrow>
                if length (ch s) < nat (NUM_REQUESTS C)
                then s\<lparr>ch := ch s @ [status], tasks := (tasks s)[j := Sent]\<rparr>
                else s
            | Sent \<Rightarrow> s\<lparr>tasks := (tasks s)[j := Cancelled]\<rparr>
            | Cancelled \<Rightarrow>
                if wg s - 1 < 0 then crash NegativeWaitGroupCounter s
                else s\<lparr>wg := wg s - 1, tasks := (tasks s)[j := Finished]\<rparr>
            | Finished \<Rightarrow> s)
      else s)"

text \<open>
  A schedule is the list of steps that the runtime picks: who moves, and how much time
  passes before the move takes effect. Nothing moves after a panic or after \<open>main\<close> has
  returned.
\<close>

datatype actor = Main | Task nat

definition step :: "config \<Rightarrow> actor \<times> nat \<Rightarrow> process \<Rightarrow> process" where
  "step C a s =
     (if crashed s \<noteq> None \<or> mpc s = Exited then s
      else (let s' = s\<lparr>wall_clock := wall_clock s + int (snd a)\<rparr>
            in case fst a of
                 Main \<Rightarrow> main_step C s'
               | Task j \<Rightarrow> task_step C j s'))"

fun exec :: "config \<Rightarrow> process \<Rightarrow> (actor \<times> nat) list \<Rightarrow> process" where
  "exec C s [] = s"
| "exec C s (a # sched) = exec C (step C a s) sched"

definition run :: "config \<Rightarrow> int \<Rightarrow> (actor \<times> nat) list \<Rightarrow> process" where
  "run C t0 sched = exec C (initial t0) sched"

text \<open>
  The exit status of the process, once it has ended: 0 when \<open>main\<close> returns, 2 when a
  goroutine panics.
\<close>

definition exit_status :: "process \<Rightarrow> int option" where
  "exit_status s =
     (case crashed s of
        Some p \<Rightarrow> Some 2
      | None \<Rightarrow> if mpc s = Exited then Some 0 else None)"

text \<open>What the state says about the goroutines and about the main goroutine.\<close>

fun has_sent :: "task_pc \<Rightarrow> bool" where
  "has_sent Calling = False"
| "has_sent (Sending status) = False"
| "has_sent Sent = True"
| "has_sent Cancelled = True"
| "has_sent Finished = True"

fun is_finished :: "task_pc \<Rightarrow> bool" where
  "is_finished Finished = True"
| "is_finished t = False"

fun aggregating :: "main_pc \<Rightarrow> bool" where
  "aggregating (Receive i) = True"
| "aggregating Returned = True"
| "aggregating Exited = True"
| "aggregating pc = False"



text \<open>
  The call that \<open>main\<close> passes to \<open>CallSimultaneous\<close>: \<open>GetSapphireRound\<close> at the height
  that \<open>RandomSapphireHeight\<close> makes of the value drawn in goroutine \<open>j\<close>.
\<close>

definition sapphire_call ::
  "lib \<Rightarrow> (nat \<Rightarrow> rpc_env) \<Rightarrow> (nat \<Rightarrow> uint64) \<Rightarrow> nat \<Rightarrow> panic + ThreadStatus" where
  "sapphire_call L envs draws j = GetSapphireRound L (envs j) (RandomSapphireHeight (draws j))"

text \<open>
  The invariant that ties the program counter of the main goroutine to the goroutines,
  the wait group and the channel: the counter of the wait group is the number of started
  goroutines that have not called \<open>wg.Done()\<close>, every status that was sent is either
  in the channel or has been received, and the main goroutine is past \<open>wg.Wait()\<close>
  only when all \<open>NUM_REQUESTS\<close> goroutines are finished.
\<close>

definition inv_sync :: "config \<Rightarrow> process \<Rightarrow> bool" where
  "inv_sync C s \<longleftrightarrow>
     wg s = int (length (filter (\<lambda>t. \<not> is_finished t) (tasks s)))
   \<and> length (ch s) + length (recvd s) = length (filter has_sent (tasks s))
   \<and> (case mpc s of
         Start \<Rightarrow> tasks s = [] \<and> recvd s = []
       | MakeChan \<Rightarrow> tasks s = [] \<and> recvd s = []
       | Launch i \<Rightarrow> length (tasks s) = i \<and> int i \<le> NUM_REQUESTS C \<and> recvd s = []
       | Sleep i \<Rightarrow> length (tasks s) = Suc i \<and> int (Suc i) \<le> NUM_REQUESTS C \<and> recvd s = []
       | Wait \<Rightarrow> int (length (tasks s)) = NUM_REQUESTS C \<and> recvd s = []
       | Receive i \<Rightarrow> int (length (tasks s)) = NUM_REQUESTS C \<and> list_all is_finished (tasks s)
                       \<and> length (recvd s) = i \<and> int i \<le> NUM_REQUESTS C
       | Returned \<Rightarrow> int (length (tasks s)) = NUM_REQUESTS C \<and> list_all is_finished (tasks s)
                       \<and> int (length (recvd s)) = NUM_REQUESTS C
       | Exited \<Rightarrow> int (length (tasks s)) = NUM_REQUESTS C \<and> list_all is_finished (tasks s)
                       \<and> int (length (recvd s)) = NUM_REQUESTS C)"



subsection \<open>Concrete runs\<close>

text \<open>
  Two requests 5ns apart, of which the first succeeds and the second fails in
  \<open>GetBlock\<close>, and one request whose block has an event that does not unmarshal; a
  schedule that runs two requests to the end, and two of its prefixes: up to the point
  where the main goroutine waits while no goroutine has moved, and up to the point where
  the first goroutine is about to send; and the schedule that starts the one goroutine
  of a single request and lets it make its call. In all of them \<open>make\<close> accepts up to
  a million statuses.
\<close>

definition cfg_mixed :: config where
  "cfg_mixed = \<lparr>NUM_REQUESTS = 2, DELAY = 5,
                 call_f = sapphire_call lib0 (\<lambda>j. if j = 0 then env_ok else env_block_fails)
                            (\<lambda>j. of_nat j),
                 max_chan_size = 1000000\<rparr>"

definition cfg_bad_event :: config where
  "cfg_bad_event = \<lparr>NUM_REQUESTS = 1, DELAY = 0,
                     call_f = sapphire_call lib0 (\<lambda>j. env_bad_event) (\<lambda>j. 0),
                     max_chan_size = 1000000\<rparr>"


definition schedule_launch :: "(actor \<times> nat) list" where
  "schedule_launch =
     [(Main, 0), (Main, 0), (Main, 1), (Main, 0), (Main, 2), (Main, 0), (Main, 0)]"

definition schedule_full :: "(actor \<times> nat) list" where
  "schedule_full =
     schedule_launch @
     [(Task 1, 0), (Task 1, 0), (Task 1, 0), (Task 1, 0),
      (Task 0, 0), (Task 0, 0), (Task 0, 0), (Task 0, 0),
      (Main, 0), (Main, 0), (Main, 0), (Main, 0), (Main, 0)]"

definition schedule_sending :: "(actor \<times> nat) list" where
  "schedule_sending = schedule_launch @ [(Task 1, 0), (Task 1, 3), (Task 0, 0)]"

text \<open>
  The number of steps that a run still has to make: those of the main goroutine, which
  include the four steps of every goroutine that it has yet to start, and those of the
  started goroutines.
\<close>

fun task_remaining :: "task_pc \<Rightarrow> nat" where
  "task_remaining Calling = 4"
| "task_remaining (Sending status) = 3"
| "task_remaining Sent = 2"
| "task_remaining Cancelled = 1"
| "task_remaining Finished = 0"

fun main_remaining :: "nat \<Rightarrow> main_pc \<Rightarrow> nat" where
  "main_remaining n Start = 7 * n + 6"
| "main_remaining n MakeChan = 7 * n + 5"
| "main_remaining n (Launch i) = 6 * (n - i) + n + 4"
| "main_remaining n (Sleep i) = 6 * (n - Suc i) + n + 5"
| "main_remaining n Wait = n + 3"
| "main_remaining n (Receive i) = (n - i) + 2"
| "main_remaining n Returned = 1"
| "main_remaining n Exited = 0"

definition remaining :: "config \<Rightarrow> process \<Rightarrow> nat" where
  "remaining C s =
     main_remaining (nat (NUM_REQUESTS C)) (mpc s) + sum_list (map task_remaining (tasks s))"


section \<open>Properties of the parameter generator\<close>

lemma unat_RandomSapphireHeight:
  "unat (RandomSapphireHeight u) = 500000 + unat u mod 400000"
  unfolding RandomSapphireHeight_def
  by (simp add: unat_word_ariths unat_mod)

text \<open>
  Claim C10. \<open>RandomSapphireHeight\<close> is a total function of the drawn value \<open>u\<close>: its
  result is \<open>500000 + (u mod 400000)\<close>, computed without wrap-around in 64 bits, and
  lies in the closed interval from 500000 to 900000.
\<close>

theorem RandomSapphireHeight_range:
  "unat (RandomSapphireHeight u) = 500000 + unat u mod 400000
   \<and> 500000 \<le> RandomSapphireHeight u \<and> RandomSapphireHeight u \<le> 900000"
proof -
  have m: "unat u mod 400000 < 400000" by simp
  have v: "unat (RandomSapphireHeight u) = 500000 + unat u mod 400000"
    by (rule unat_RandomSapphireHeight)
  have lo: "unat (500000 :: uint64) \<le> unat (RandomSapphireHeight u)"
    using v by simp
  have hi: "unat (RandomSapphireHeight u) \<le> unat (900000 :: uint64)"
    using v m by simp
  show ?thesis using v lo hi by (simp add: word_le_nat_alt)
qed

theorem RandomSapphireHeight_range_witness:
  "RandomSapphireHeight 0xFFFFFFFFFFFFFFFF = 851615 \<and> RandomSapphireHeight 399999 = 899999
   \<and> 500000 \<le> RandomSapphireHeight 399999 \<and> RandomSapphireHeight 399999 \<le> 900000"
  using RandomSapphireHeight_range [of 399999]
  by (simp add: RandomSapphireHeight_def)

section \<open>Properties of the stage pipeline\<close>

text \<open>
  What a returned status holds: the height as its \<open>ID\<close>; as its error, the error of
  \<open>Dial\<close> or of \<open>GetBlock\<close> and no other; and a message only when the four remote
  stages succeeded and the decoder returned a block.
\<close>

lemma GetSapphireRound_err:
  assumes "GetSapphireRound L E height = Inr st"
  shows "err st = (case Dial E of
                     Some e \<Rightarrow> Some e
                   | None \<Rightarrow> (case rpc_GetBlock E height of Inl e \<Rightarrow> Some e | Inr block \<Rightarrow> None))"
  using assms
  by (auto simp: GetSapphireRound_def Let_def split: option.splits sum.splits prod.splits)

lemma GetSapphireRound_msg:
  assumes "GetSapphireRound L E height = Inr st" and "msg st \<noteq> []"
  shows "\<exists>block txs events bd e.
           Dial E = None \<and> rpc_GetBlock E height = Inr block
         \<and> rpc_GetTransactionsWithResults E height = Inr txs
         \<and> rpc_GetEvents E height = Inr events
         \<and> TryNexusParseBlock L block txs events = (Some bd, e)
         \<and> msg st = Sprintf_round bd"
  using assms
  by (auto simp: GetSapphireRound_def Let_def split: option.splits sum.splits prod.splits)

lemma GetSapphireRound_ID:
  "GetSapphireRound L E height = Inr st \<Longrightarrow> ID st = height"
  by (auto simp: GetSapphireRound_def Let_def split: option.splits sum.splits prod.splits)

lemma GetSapphireRound_dial_failure:
  "GetSapphireRound lib0 env_dial_fails 600000 =
     Inr \<lparr>ID = 600000, err = Some (Err ''connection refused''), msg = [],
          times' = \<lparr>Connect = 0, GetBlock = 0, GetTransactions = 0, GetEvents = 0, Parse = 0\<rparr>\<rparr>"
  by (simp add: GetSapphireRound_def env_dial_fails_def env_ok_def ApiTimes_zero_def)

text \<open>
  Claim C1. The claim is that the error field of a returned status is set exactly when
  some stage failed, with that stage's error. When \<open>GetTransactionsWithResults\<close> is the
  first call to fail, \<open>GetSapphireRound\<close> returns the status without storing the error:
  the status has no error, although the stage failed with a deadline error.
\<close>

theorem GetSapphireRound_txs_failure_no_error:
  "first_failure lib0 env_txs_fail 600000 = Some (StGetTransactions, Err ''context deadline exceeded'')
   \<and> GetSapphireRound lib0 env_txs_fail 600000 =
       Inr \<lparr>ID = 600000, err = None, msg = [],
            times' = \<lparr>Connect = 7, GetBlock = 7, GetTransactions = 0, GetEvents = 0, Parse = 0\<rparr>\<rparr>"
  by (simp add: first_failure_def GetSapphireRound_def env_txs_fail_def env_ok_def ApiTimes_zero_def)

text \<open>
  Claim C2, as stated, fails: when \<open>GetBlock\<close> is the first stage to fail, 7ns after its
  start by the clock, the returned status holds zero for the failing stage itself, not
  the measured time.
\<close>

theorem GetSapphireRound_failing_stage_time_zero:
  "first_failure lib0 env_block_fails 600000 = Some (StGetBlock, Err ''context deadline exceeded'')
   \<and> elapsed env_block_fails StGetBlock = 7
   \<and> GetSapphireRound lib0 env_block_fails 600000 =
       Inr \<lparr>ID = 600000, err = Some (Err ''context deadline exceeded''), msg = [],
            times' = \<lparr>Connect = 7, GetBlock = 0, GetTransactions = 0, GetEvents = 0, Parse = 0\<rparr>\<rparr>"
  by (simp add: first_failure_def GetSapphireRound_def elapsed_def env_block_fails_def env_ok_def
      ApiTimes_zero_def)

text \<open>
  Claim C2, amended. When stage \<open>i\<close> is the first stage to fail and the function returns
  a status, the time of every stage before \<open>i\<close> is the measured one, and the time of
  stage \<open>i\<close> and of every later stage is zero when \<open>i\<close> is one of the four remote stages
  (when \<open>i\<close> is the decode stage, all five times are the measured ones). When \<open>i\<close> is
  the connect or the \<open>GetBlock\<close> stage, the status carries the stage's error.
\<close>

theorem GetSapphireRound_timings:
  assumes "first_failure L E height = Some (i, e)"
    and "GetSapphireRound L E height = Inr st"
  shows "duration j (times' st) =
           (if stage_index j < stage_index i \<or> i = StDecode then elapsed E j else 0)
         \<and> (i = StConnect \<or> i = StGetBlock \<longrightarrow> err st = Some e)"
  using assms
  by (cases j)
     (auto simp: first_failure_def GetSapphireRound_def elapsed_def ApiTimes_zero_def Let_def
           split: option.splits sum.splits prod.splits)

theorem GetSapphireRound_timings_witness:
  "first_failure lib0 env_events_fail 600000 = Some (StGetEvents, Err ''unavailable'')
   \<and> (\<exists>st. GetSapphireRound lib0 env_events_fail 600000 = Inr st
       \<and> duration StGetTransactions (times' st) = 7
       \<and> duration StGetEvents (times' st) = 0
       \<and> duration StDecode (times' st) = 0)"
proof -
  have f: "first_failure lib0 env_events_fail 600000 = Some (StGetEvents, Err ''unavailable'')"
    by (simp add: first_failure_def env_events_fail_def env_ok_def)
  obtain st where r: "GetSapphireRound lib0 env_events_fail 600000 = Inr st"
    by (simp add: GetSapphireRound_def env_events_fail_def env_ok_def)
  have e: "elapsed env_events_fail StGetTransactions = 7"
    by (simp add: elapsed_def env_events_fail_def env_ok_def)
  show ?thesis
    using f r e GetSapphireRound_timings [OF f r, of StGetTransactions]
      GetSapphireRound_timings [OF f r, of StGetEvents]
      GetSapphireRound_timings [OF f r, of StDecode]
    by simp
qed

lemma block_events_fail:
  "rawEv \<in> set evs
   \<Longrightarrow> UnmarshalRaw L (re_Key rawEv) (re_Value rawEv) (Some (re_TxHash rawEv)) = Inl e
   \<Longrightarrow> \<exists>e'. block_events L evs = Inl e'"
  by (induction evs) (auto split: sum.splits)

lemma TryNexusParseBlock_bad_event:
  "rawEv \<in> set evs
   \<Longrightarrow> UnmarshalRaw L (re_Key rawEv) (re_Value rawEv) (Some (re_TxHash rawEv)) = Inl e
   \<Longrightarrow> \<exists>e'. TryNexusParseBlock L block txs evs = (None, Some e')"
  using block_events_fail [of rawEv evs L e] by (auto simp: TryNexusParseBlock_def Let_def)

text \<open>
  Claim C4. When the four remote stages succeed and \<open>TryNexusParseBlock\<close> returns a nil
  block together with an error (as it does when an event of the block does not
  unmarshal), \<open>GetSapphireRound\<close> discards the error and reads the fields of the nil
  block for the message: the call ends in a nil-pointer panic and returns no status.
\<close>

theorem GetSapphireRound_decode_failure_panics:
  assumes "Dial E = None"
    and "rpc_GetBlock E height = Inr block"
    and "rpc_GetTransactionsWithResults E height = Inr txs"
    and "rpc_GetEvents E height = Inr events"
    and "TryNexusParseBlock L block txs events = (None, Some e)"
  shows "GetSapphireRound L E height = Inl NilPointerDereference
         \<and> first_failure L E height = Some (StDecode, e)"
  using assms by (simp add: GetSapphireRound_def first_failure_def Let_def)

theorem GetSapphireRound_decode_failure_panics_witness:
  "Dial env_bad_event = None
   \<and> rpc_GetBlock env_bad_event 600000 = Inr header0
   \<and> rpc_GetTransactionsWithResults env_bad_event 600000 = Inr []
   \<and> rpc_GetEvents env_bad_event 600000 = Inr [\<lparr>re_Key = [], re_Value = [1], re_TxHash = ''ab''\<rparr>]
   \<and> TryNexusParseBlock lib0 header0 [] [\<lparr>re_Key = [], re_Value = [1], re_TxHash = ''ab''\<rparr>]
       = (None, Some (Wrap ''failed to unmarshal event'' (Err ''empty key'')))
   \<and> GetSapphireRound lib0 env_bad_event 600000 = Inl NilPointerDereference"
proof -
  have a: "Dial env_bad_event = None"
    by (simp add: env_bad_event_def env_ok_def)
  have b: "rpc_GetBlock env_bad_event 600000 = Inr header0"
    by (simp add: env_bad_event_def env_ok_def)
  have c: "rpc_GetTransactionsWithResults env_bad_event 600000 = Inr []"
    by (simp add: env_bad_event_def env_ok_def)
  have d: "rpc_GetEvents env_bad_event 600000
             = Inr [\<lparr>re_Key = [], re_Value = [1], re_TxHash = ''ab''\<rparr>]"
    by (simp add: env_bad_event_def env_ok_def)
  have e: "TryNexusParseBlock lib0 header0 [] [\<lparr>re_Key = [], re_Value = [1], re_TxHash = ''ab''\<rparr>]
             = (None, Some (Wrap ''failed to unmarshal event'' (Err ''empty key'')))"
    by (simp add: TryNexusParseBlock_def lib0_def)
  show ?thesis
    using a b c d e GetSapphireRound_decode_failure_panics [OF a b c d e] by simp
qed

section \<open>Properties of the scheduler and the aggregator\<close>

subsection \<open>The synchronisation invariant\<close>

lemma length_filter_update:
  "j < length xs \<Longrightarrow>
   length (filter P (xs[j := y])) + (if P (xs ! j) then 1 else 0)
     = length (filter P xs) + (if P y then 1 else 0)"
proof (induction xs arbitrary: j)
  case Nil
  then show ?case by simp
next
  case (Cons x xs)
  show ?case
  proof (cases j)
    case 0
    then show ?thesis by simp
  next
    case (Suc k)
    with Cons.prems have "k < length xs" by simp
    from Cons.IH [OF this] Suc show ?thesis by simp
  qed
qed

lemma no_unfinished_all_finished:
  "filter (\<lambda>t. \<not> is_finished t) xs = [] \<Longrightarrow> list_all is_finished xs"
  by (induction xs) (auto split: if_splits)

lemma all_finished_nth:
  "list_all is_finished xs \<Longrightarrow> j < length xs \<Longrightarrow> xs ! j = Finished"
  by (metis is_finished.elims(2) list_all_length)

lemma inv_sync_initial: "inv_sync C (initial t0)"
  by (simp add: inv_sync_def initial_def)

lemma inv_sync_clock: "inv_sync C (s\<lparr>wall_clock := t\<rparr>) = inv_sync C s"
  by (cases "mpc s") (simp_all add: inv_sync_def)

lemma inv_sync_crash: "inv_sync C (crash p s) = inv_sync C s"
  by (cases "mpc s") (simp_all add: inv_sync_def crash_def)

lemma inv_sync_main_step:
  assumes "inv_sync C s"
  shows "inv_sync C (main_step C s)"
proof (cases "mpc s")
  case Wait
  with assms show ?thesis
    by (auto simp: inv_sync_def main_step_def dest: no_unfinished_all_finished)
next
  case (Receive i)
  with assms show ?thesis
    by (auto simp: inv_sync_def main_step_def split: list.splits)
qed (use assms in \<open>auto simp: inv_sync_def main_step_def crash_def\<close>)

lemma inv_sync_task_step:
  assumes "inv_sync C s"
  shows "inv_sync C (task_step C j s)"
proof (cases "j < length (tasks s)")
  case False
  with assms show ?thesis by (simp add: task_step_def)
next
  case j: True
  note upd = length_filter_update [OF j]
  show ?thesis
  proof (cases "tasks s ! j")
    case Calling
    show ?thesis
    proof (cases "call_f C j")
      case (Inl p)
      with Calling j assms show ?thesis by (simp add: task_step_def inv_sync_crash)
    next
      case (Inr status)
      have "aggregating (mpc s) \<Longrightarrow> False"
        using assms Calling j all_finished_nth [of "tasks s" j]
        by (cases "mpc s") (auto simp: inv_sync_def)
      then show ?thesis
        using assms Calling j Inr upd [of "\<lambda>t. \<not> is_finished t" "Sending status"]
          upd [of has_sent "Sending status"]
        by (cases "mpc s") (auto simp: inv_sync_def task_step_def)
    qed
  next
    case (Sending status)
    have "aggregating (mpc s) \<Longrightarrow> False"
      using assms Sending j all_finished_nth [of "tasks s" j]
      by (cases "mpc s") (auto simp: inv_sync_def)
    then show ?thesis
      using assms Sending j upd [of "\<lambda>t. \<not> is_finished t" Sent] upd [of has_sent Sent]
      by (cases "mpc s") (auto simp: inv_sync_def task_step_def)
  next
    case Sent
    have "aggregating (mpc s) \<Longrightarrow> False"
      using assms Sent j all_finished_nth [of "tasks s" j]
      by (cases "mpc s") (auto simp: inv_sync_def)
    then show ?thesis
      using assms Sent j upd [of "\<lambda>t. \<not> is_finished t" Cancelled] upd [of has_sent Cancelled]
      by (cases "mpc s") (auto simp: inv_sync_def task_step_def)
  next
    case Cancelled
    have "aggregating (mpc s) \<Longrightarrow> False"
      using assms Cancelled j all_finished_nth [of "tasks s" j]
      by (cases "mpc s") (auto simp: inv_sync_def)
    then show ?thesis
      using assms Cancelled j upd [of "\<lambda>t. \<not> is_finished t" Finished] upd [of has_sent Finished]
      by (cases "mpc s") (auto simp: inv_sync_def task_step_def crash_def)
  next
    case Finished
    with assms j show ?thesis by (simp add: task_step_def)
  qed
qed

lemma inv_sync_step: "inv_sync C s \<Longrightarrow> inv_sync C (step C a s)"
  by (cases "fst a")
     (simp_all add: step_def Let_def inv_sync_main_step inv_sync_task_step inv_sync_clock)

lemma inv_sync_exec: "inv_sync C s \<Longrightarrow> inv_sync C (exec C s sched)"
  by (induction sched arbitrary: s) (simp_all add: inv_sync_step)

lemma inv_sync_run: "inv_sync C (run C t0 sched)"
  by (simp add: run_def inv_sync_exec inv_sync_initial)

subsection \<open>The error counter and the launch times\<close>
















subsection \<open>What the invariants give\<close>

lemma all_finished_sent:
  "list_all is_finished xs \<Longrightarrow> length (filter has_sent xs) = length xs"
  by (induction xs) (auto elim: is_finished.elims)

lemma unsent_filter_less:
  "j < length xs \<Longrightarrow> \<not> has_sent (xs ! j) \<Longrightarrow> length (filter has_sent xs) < length xs"
proof -
  assume "j < length xs" and "\<not> has_sent (xs ! j)"
  then have "\<exists>x \<in> set xs. \<not> has_sent x" by auto
  then obtain x where "x \<in> set xs" and "\<not> has_sent x" by blast
  then show ?thesis by (rule length_filter_less)
qed

lemma inv_sync_tasks_le:
  "inv_sync C s \<Longrightarrow> int (length (tasks s)) \<le> max 0 (NUM_REQUESTS C)"
  by (cases "mpc s") (auto simp: inv_sync_def)

lemma inv_sync_aggregating:
  "inv_sync C s \<Longrightarrow> aggregating (mpc s) \<Longrightarrow>
   int (length (tasks s)) = NUM_REQUESTS C \<and> list_all is_finished (tasks s)"
  by (cases "mpc s") (auto simp: inv_sync_def)


lemma all_finished_none_unfinished:
  "list_all is_finished xs \<Longrightarrow> filter (\<lambda>t. \<not> is_finished t) xs = []"
  by (induction xs) auto

lemmas run_simps = run_def initial_def step_def main_step_def task_step_def crash_def
  status_lines_def Let_def

lemma call_f_cfg_mixed_0: "\<exists>st. call_f cfg_mixed 0 = Inr st \<and> err st = None"
  by (simp add: cfg_mixed_def sapphire_call_def GetSapphireRound_def env_ok_def ApiTimes_zero_def
        TryNexusParseBlock_def lib0_def)

lemma call_f_cfg_mixed_1: "\<exists>st. call_f cfg_mixed (Suc 0) = Inr st \<and> err st \<noteq> None"
  by (simp add: cfg_mixed_def sapphire_call_def GetSapphireRound_def env_ok_def ApiTimes_zero_def
        env_block_fails_def)

lemma NUM_REQUESTS_cfg_mixed: "NUM_REQUESTS cfg_mixed = 2" and DELAY_cfg_mixed: "DELAY cfg_mixed = 5"
  by (simp_all add: cfg_mixed_def)

lemma max_chan_size_cfg_mixed: "max_chan_size cfg_mixed = 1000000"
  by (simp add: cfg_mixed_def)

lemma run_full:
  "\<exists>a b. err a = None \<and> err b \<noteq> None \<and>
     mpc (run cfg_mixed 1000 schedule_full) = Exited \<and>
     tasks (run cfg_mixed 1000 schedule_full) = [Finished, Finished] \<and>
     ch (run cfg_mixed 1000 schedule_full) = [] \<and>
     recvd (run cfg_mixed 1000 schedule_full) = [b, a] \<and>
     num_errors (run cfg_mixed 1000 schedule_full) = 1 \<and>
     launched_at (run cfg_mixed 1000 schedule_full) = [1001, 1008] \<and>
     crashed (run cfg_mixed 1000 schedule_full) = None"
proof -
  obtain a where a: "call_f cfg_mixed 0 = Inr a" "err a = None"
    using call_f_cfg_mixed_0 by blast
  obtain b where b: "call_f cfg_mixed (Suc 0) = Inr b" "err b \<noteq> None"
    using call_f_cfg_mixed_1 by blast
  show ?thesis
    using a(2) b(2)
    by (intro exI [of _ a] exI [of _ b])
       (simp add: run_simps schedule_full_def schedule_launch_def a(1) b(1)
          NUM_REQUESTS_cfg_mixed DELAY_cfg_mixed max_chan_size_cfg_mixed)
qed

lemma run_launch:
  "mpc (run cfg_mixed 1000 schedule_launch) = Wait \<and>
   tasks (run cfg_mixed 1000 schedule_launch) = [Calling, Calling] \<and>
   wg (run cfg_mixed 1000 schedule_launch) = 2"
  by (simp add: run_simps schedule_launch_def NUM_REQUESTS_cfg_mixed DELAY_cfg_mixed
        max_chan_size_cfg_mixed)

subsection \<open>The claims about the scheduler and the aggregator\<close>

text \<open>
  The counts of a run. In every state that a run reaches, at most \<open>NUM_REQUESTS\<close>
  statuses have been sent and at most \<open>NUM_REQUESTS\<close> received; in the runs in which
  \<open>CallSimultaneous\<close> returns, exactly \<open>NUM_REQUESTS\<close> goroutines were started, each
  has sent its status, exactly \<open>NUM_REQUESTS\<close> statuses were received by the loop of the
  aggregator, and the channel is empty.
\<close>

lemma counts_on_return:
  assumes "s = run C t0 sched"
  shows "int (length (filter has_sent (tasks s))) \<le> max 0 (NUM_REQUESTS C)
       \<and> int (length (recvd s)) \<le> max 0 (NUM_REQUESTS C)
       \<and> (mpc s = Returned \<or> mpc s = Exited \<longrightarrow>
            int (length (tasks s)) = NUM_REQUESTS C
          \<and> int (length (filter has_sent (tasks s))) = NUM_REQUESTS C
          \<and> int (length (recvd s)) = NUM_REQUESTS C
          \<and> ch s = [])"
proof -
  have inv: "inv_sync C s" using assms by (simp add: inv_sync_run)
  have le: "int (length (tasks s)) \<le> max 0 (NUM_REQUESTS C)"
    using inv by (rule inv_sync_tasks_le)
  have sent_le: "length (filter has_sent (tasks s)) \<le> length (tasks s)"
    by (rule length_filter_le)
  have bal: "length (ch s) + length (recvd s) = length (filter has_sent (tasks s))"
    using inv by (simp add: inv_sync_def)
  have 1: "int (length (filter has_sent (tasks s))) \<le> max 0 (NUM_REQUESTS C)"
    using le sent_le by linarith
  have 2: "int (length (recvd s)) \<le> max 0 (NUM_REQUESTS C)"
    using 1 bal by linarith
  have 3: "int (length (tasks s)) = NUM_REQUESTS C
          \<and> int (length (filter has_sent (tasks s))) = NUM_REQUESTS C
          \<and> int (length (recvd s)) = NUM_REQUESTS C \<and> ch s = []"
    if "mpc s = Returned \<or> mpc s = Exited"
  proof -
    have f: "list_all is_finished (tasks s)" and n: "int (length (tasks s)) = NUM_REQUESTS C"
      and r: "int (length (recvd s)) = NUM_REQUESTS C"
      using inv that by (auto simp: inv_sync_def)
    have a: "length (filter has_sent (tasks s)) = length (tasks s)"
      using f by (rule all_finished_sent)
    have "length (recvd s) = length (tasks s)"
      using n r by linarith
    with a bal have "length (ch s) = 0" by linarith
    with a n r show ?thesis by simp
  qed
  from 1 2 3 show ?thesis by blast
qed

lemma counts_on_return_example:
  "mpc (run cfg_mixed 1000 schedule_full) = Exited
   \<and> NUM_REQUESTS cfg_mixed = 2
   \<and> length (tasks (run cfg_mixed 1000 schedule_full)) = 2
   \<and> length (filter has_sent (tasks (run cfg_mixed 1000 schedule_full))) = 2
   \<and> length (recvd (run cfg_mixed 1000 schedule_full)) = 2
   \<and> ch (run cfg_mixed 1000 schedule_full) = []"
  using run_full NUM_REQUESTS_cfg_mixed
    counts_on_return [OF refl, of cfg_mixed 1000 schedule_full]
  by auto

text \<open>
  Runs that end in a panic. After a panic nothing moves any more; a size that \<open>make\<close>
  rejects ends the process before any goroutine is started; and when every call
  panics, no run sends or receives anything.
\<close>

lemma exec_append: "exec C s (xs @ ys) = exec C (exec C s xs) ys"
  by (induction xs arbitrary: s) simp_all

lemma exec_crashed: "crashed s \<noteq> None \<Longrightarrow> exec C s sched = s"
  by (induction sched) (simp_all add: step_def)

lemma make_chan_size_out_of_range:
  "NUM_REQUESTS C < 0 \<or> max_chan_size C < NUM_REQUESTS C \<Longrightarrow>
   crashed (run C t0 ([(Main, 0), (Main, 0)] @ rest)) = Some ChanSizeOutOfRange
   \<and> tasks (run C t0 ([(Main, 0), (Main, 0)] @ rest)) = []"
proof -
  assume a: "NUM_REQUESTS C < 0 \<or> max_chan_size C < NUM_REQUESTS C"
  let ?s = "exec C (initial t0) [(Main, 0), (Main, 0)]"
  have c: "crashed ?s = Some ChanSizeOutOfRange" and t: "tasks ?s = []"
    using a by (auto simp: run_simps)
  have "run C t0 ([(Main, 0), (Main, 0)] @ rest) = exec C ?s rest"
    unfolding run_def by (rule exec_append)
  also have "\<dots> = ?s" using c by (simp add: exec_crashed)
  finally show ?thesis using c t by simp
qed













text \<open>
  Claim C6. Whenever the main goroutine is in the loop of the aggregator or past it,
  all \<open>NUM_REQUESTS\<close> goroutines have been started and every one of them has finished
  (its deferred \<open>wg.Done()\<close> has run, and the counter of the wait group is zero); and
  while some started goroutine has not finished, \<open>wg.Wait()\<close> does not return.
\<close>

theorem CallSimultaneous_joins_before_aggregating:
  assumes "s = run C t0 sched"
  shows "(aggregating (mpc s) \<longrightarrow>
            int (length (tasks s)) = NUM_REQUESTS C \<and> list_all is_finished (tasks s) \<and> wg s = 0)
       \<and> (mpc s = Wait \<and> \<not> list_all is_finished (tasks s) \<longrightarrow> main_step C s = s)"
proof -
  have inv: "inv_sync C s" using assms by (simp add: inv_sync_run)
  have w: "wg s = int (length (filter (\<lambda>t. \<not> is_finished t) (tasks s)))"
    using inv by (simp add: inv_sync_def)
  have 1: "int (length (tasks s)) = NUM_REQUESTS C \<and> list_all is_finished (tasks s) \<and> wg s = 0"
    if "aggregating (mpc s)"
    using inv_sync_aggregating [OF inv that] w by (simp add: all_finished_none_unfinished)
  have 2: "main_step C s = s" if "mpc s = Wait \<and> \<not> list_all is_finished (tasks s)"
  proof -
    have "filter (\<lambda>t. \<not> is_finished t) (tasks s) \<noteq> []"
      using that no_unfinished_all_finished by blast
    then have "wg s \<noteq> 0" using w by simp
    then show ?thesis using that by (simp add: main_step_def)
  qed
  from 1 2 show ?thesis by blast
qed

theorem CallSimultaneous_joins_before_aggregating_witness:
  "aggregating (mpc (run cfg_mixed 1000 schedule_full))
   \<and> list_all is_finished (tasks (run cfg_mixed 1000 schedule_full))
   \<and> wg (run cfg_mixed 1000 schedule_full) = 0
   \<and> mpc (run cfg_mixed 1000 schedule_launch) = Wait
   \<and> \<not> list_all is_finished (tasks (run cfg_mixed 1000 schedule_launch))
   \<and> main_step cfg_mixed (run cfg_mixed 1000 schedule_launch) = run cfg_mixed 1000 schedule_launch"
  using run_full run_launch
    CallSimultaneous_joins_before_aggregating [OF refl, of cfg_mixed 1000 schedule_full]
    CallSimultaneous_joins_before_aggregating [OF refl, of cfg_mixed 1000 schedule_launch]
  by auto

lemma run_sending:
  "\<exists>a b. mpc (run cfg_mixed 1000 schedule_sending) = Wait \<and>
     tasks (run cfg_mixed 1000 schedule_sending) = [Sending a, Sent] \<and>
     ch (run cfg_mixed 1000 schedule_sending) = [b] \<and>
     ch (task_step cfg_mixed 0 (run cfg_mixed 1000 schedule_sending)) = [b, a]"
proof -
  obtain a where a: "call_f cfg_mixed 0 = Inr a"
    using call_f_cfg_mixed_0 by blast
  obtain b where b: "call_f cfg_mixed (Suc 0) = Inr b"
    using call_f_cfg_mixed_1 by blast
  show ?thesis
    by (intro exI [of _ a] exI [of _ b])
       (simp add: run_simps schedule_sending_def schedule_launch_def a b
          NUM_REQUESTS_cfg_mixed DELAY_cfg_mixed max_chan_size_cfg_mixed)
qed

text \<open>
  Claim C7. The channel is made with room for \<open>NUM_REQUESTS\<close> statuses and no more than
  \<open>NUM_REQUESTS\<close> goroutines are ever started. Whenever a goroutine is about to send its
  status, under any schedule, the channel holds fewer than \<open>NUM_REQUESTS\<close> statuses, so
  the send takes place at once: the status is appended to the channel and the goroutine
  moves on, whether or not the main goroutine has received anything.
\<close>

theorem send_never_blocks:
  assumes "s = run C t0 sched"
    and "j < length (tasks s)"
    and "tasks s ! j = Sending status"
  shows "length (tasks s) \<le> nat (NUM_REQUESTS C)
       \<and> length (ch s) < nat (NUM_REQUESTS C)
       \<and> ch (task_step C j s) = ch s @ [status]
       \<and> tasks (task_step C j s) ! j = Sent"
proof -
  have inv: "inv_sync C s" using assms(1) by (simp add: inv_sync_run)
  have le: "length (tasks s) \<le> nat (NUM_REQUESTS C)"
    using inv_sync_tasks_le [OF inv] by linarith
  have "\<not> has_sent (tasks s ! j)" using assms(3) by simp
  then have "length (filter has_sent (tasks s)) < length (tasks s)"
    using assms(2) by (simp add: unsent_filter_less)
  moreover have "length (ch s) + length (recvd s) = length (filter has_sent (tasks s))"
    using inv by (simp add: inv_sync_def)
  ultimately have room: "length (ch s) < nat (NUM_REQUESTS C)"
    using le by linarith
  show ?thesis
    using le room assms(2,3) by (simp add: task_step_def)
qed

theorem send_never_blocks_witness:
  "\<exists>a b. tasks (run cfg_mixed 1000 schedule_sending) = [Sending a, Sent]
     \<and> ch (run cfg_mixed 1000 schedule_sending) = [b]
     \<and> length (ch (run cfg_mixed 1000 schedule_sending)) < nat (NUM_REQUESTS cfg_mixed)
     \<and> ch (task_step cfg_mixed 0 (run cfg_mixed 1000 schedule_sending)) = [b, a]
     \<and> tasks (task_step cfg_mixed 0 (run cfg_mixed 1000 schedule_sending)) ! 0 = Sent"
proof -
  obtain a b where r: "tasks (run cfg_mixed 1000 schedule_sending) = [Sending a, Sent]"
      "ch (run cfg_mixed 1000 schedule_sending) = [b]"
      "ch (task_step cfg_mixed 0 (run cfg_mixed 1000 schedule_sending)) = [b, a]"
    using run_sending by blast
  have j: "0 < length (tasks (run cfg_mixed 1000 schedule_sending))"
    and t: "tasks (run cfg_mixed 1000 schedule_sending) ! 0 = Sending a"
    using r(1) by simp_all
  show ?thesis
    using r send_never_blocks [OF refl j t] by auto
qed



text \<open>
  Claim C9. The claim is that the process always ends with a successful exit status,
  however many tasks fail. With one request whose block has an event that does not
  unmarshal, the decode stage fails, the goroutine panics on the nil block, and the
  process ends with exit status 2 before anything is printed.
\<close>

theorem main_exit_status_decode_failure:
  "first_failure lib0 env_bad_event (RandomSapphireHeight 0)
     = Some (StDecode, Wrap ''failed to unmarshal event'' (Err ''empty key''))
   \<and> crashed (run cfg_bad_event 1000 [(Main, 0), (Main, 0), (Main, 0), (Task 0, 0)])
       = Some NilPointerDereference
   \<and> stdout (run cfg_bad_event 1000 [(Main, 0), (Main, 0), (Main, 0), (Task 0, 0)]) = []
   \<and> exit_status (run cfg_bad_event 1000 [(Main, 0), (Main, 0), (Main, 0), (Task 0, 0)]) = Some 2"
proof -
  have c: "call_f cfg_bad_event 0 = Inl NilPointerDereference"
    by (simp add: cfg_bad_event_def sapphire_call_def GetSapphireRound_def env_bad_event_def
          env_ok_def ApiTimes_zero_def TryNexusParseBlock_def lib0_def)
  have n: "NUM_REQUESTS cfg_bad_event = 1" "max_chan_size cfg_bad_event = 1000000"
    by (simp_all add: cfg_bad_event_def)
  have f: "first_failure lib0 env_bad_event (RandomSapphireHeight 0)
     = Some (StDecode, Wrap ''failed to unmarshal event'' (Err ''empty key''))"
    by (simp add: first_failure_def env_bad_event_def env_ok_def TryNexusParseBlock_def lib0_def)
  show ?thesis
    using f by (simp add: run_simps exit_status_def c n)
qed

text \<open>
  When no goroutine panics, a failed request does not change the exit status: the run of
  two requests of which one fails ends with one counted error and exit status 0.
\<close>

lemma exit_status_with_failed_request:
  "num_errors (run cfg_mixed 1000 schedule_full) = 1
   \<and> exit_status (run cfg_mixed 1000 schedule_full) = Some 0"
  using run_full by (auto simp: exit_status_def)

subsection \<open>Progress\<close>

text \<open>
  A run cannot get stuck and cannot go on for ever: no step increases the number of
  remaining steps, and in every state that a run reaches, unless the process has ended,
  some goroutine can make a step that decreases it or that panics.
\<close>

lemma sum_list_task_update:
  "j < length xs \<Longrightarrow>
   sum_list (map f (xs[j := y])) + f (xs ! j) = sum_list (map f xs) + (f y :: nat)"
proof (induction xs arbitrary: j)
  case Nil
  then show ?case by simp
next
  case (Cons x xs)
  show ?case
  proof (cases j)
    case 0
    then show ?thesis by simp
  next
    case (Suc k)
    with Cons.prems have "k < length xs" by simp
    from Cons.IH [OF this] Suc show ?thesis by simp
  qed
qed

lemma remaining_clock: "remaining C (s\<lparr>wall_clock := t\<rparr>) = remaining C s"
  by (simp add: remaining_def)

lemma remaining_main_step:
  assumes "inv_sync C s"
  shows "remaining C (main_step C s) \<le> remaining C s"
proof (cases "mpc s")
  case (Launch i)
  with assms show ?thesis
    by (auto simp: remaining_def main_step_def inv_sync_def)
next
  case (Receive i)
  with assms show ?thesis
    by (auto simp: remaining_def main_step_def inv_sync_def split: list.splits)
qed (use assms in \<open>auto simp: remaining_def main_step_def crash_def inv_sync_def\<close>)

lemma remaining_task_step: "remaining C (task_step C j s) \<le> remaining C s"
proof (cases "j < length (tasks s)")
  case False
  then show ?thesis by (simp add: task_step_def)
next
  case True
  note upd = sum_list_task_update [OF True, of task_remaining]
  show ?thesis
  proof (cases "tasks s ! j")
    case Calling
    with True upd [of "Sending (projr (call_f C j))"] show ?thesis
      by (cases "call_f C j") (auto simp: remaining_def task_step_def crash_def)
  next
    case (Sending status)
    with True upd [of Sent] show ?thesis
      by (auto simp: remaining_def task_step_def)
  next
    case Sent
    with True upd [of Cancelled] show ?thesis
      by (auto simp: remaining_def task_step_def)
  next
    case Cancelled
    with True upd [of Finished] show ?thesis
      by (auto simp: remaining_def task_step_def crash_def)
  next
    case Finished
    with True show ?thesis by (simp add: task_step_def)
  qed
qed

lemma remaining_step: "inv_sync C s \<Longrightarrow> remaining C (step C a s) \<le> remaining C s"
proof (cases "fst a")
  case Main
  assume "inv_sync C s"
  then have "inv_sync C (s\<lparr>wall_clock := wall_clock s + int (snd a)\<rparr>)"
    by (simp add: inv_sync_clock)
  from remaining_main_step [OF this] Main show ?thesis
    by (simp add: step_def Let_def remaining_clock)
next
  case (Task j)
  from remaining_task_step [of C j "s\<lparr>wall_clock := wall_clock s + int (snd a)\<rparr>"] Task
  show ?thesis
    by (simp add: step_def Let_def remaining_clock)
qed

lemma step_now:
  "crashed s = None \<Longrightarrow> mpc s \<noteq> Exited \<Longrightarrow>
   step C (Main, 0) s = main_step C s \<and> step C (Task j, 0) s = task_step C j s"
  by (simp add: step_def)

lemma unfinished_task:
  "filter (\<lambda>t. \<not> is_finished t) xs \<noteq> [] \<Longrightarrow> \<exists>j < length xs. \<not> is_finished (xs ! j)"
  by (metis filter_False in_set_conv_nth)

lemma task_step_progress:
  assumes inv: "inv_sync C s" and j: "j < length (tasks s)" and u: "\<not> is_finished (tasks s ! j)"
  shows "crashed (task_step C j s) \<noteq> None \<or> remaining C (task_step C j s) < remaining C s"
proof -
  note upd = sum_list_task_update [OF j, of task_remaining]
  show ?thesis
  proof (cases "tasks s ! j")
    case Calling
    with j upd [of "Sending (projr (call_f C j))"] show ?thesis
      by (cases "call_f C j") (auto simp: remaining_def task_step_def crash_def)
  next
    case (Sending status)
    have "\<not> has_sent (tasks s ! j)" using Sending by simp
    then have "length (filter has_sent (tasks s)) < length (tasks s)"
      using j by (simp add: unsent_filter_less)
    moreover have "length (ch s) + length (recvd s) = length (filter has_sent (tasks s))"
      using inv by (simp add: inv_sync_def)
    ultimately have "length (ch s) < nat (NUM_REQUESTS C)"
      using inv_sync_tasks_le [OF inv] by linarith
    with Sending j upd [of Sent] show ?thesis
      by (auto simp: remaining_def task_step_def)
  next
    case Sent
    with j upd [of Cancelled] show ?thesis
      by (auto simp: remaining_def task_step_def)
  next
    case Cancelled
    with j upd [of Finished] show ?thesis
      by (auto simp: remaining_def task_step_def crash_def)
  next
    case Finished
    with u show ?thesis by simp
  qed
qed

lemma main_step_progress:
  assumes inv: "inv_sync C s" and pc: "mpc s \<noteq> Exited" "mpc s \<noteq> Wait \<or> wg s = 0"
  shows "crashed (main_step C s) \<noteq> None \<or> remaining C (main_step C s) < remaining C s"
proof (cases "mpc s")
  case (Launch i)
  with inv show ?thesis
    by (auto simp: remaining_def main_step_def inv_sync_def)
next
  case (Sleep i)
  with inv show ?thesis
    by (auto simp: remaining_def main_step_def inv_sync_def)
next
  case (Receive i)
  show ?thesis
  proof (cases "int i < NUM_REQUESTS C")
    case True
    have "length (filter has_sent (tasks s)) = length (tasks s)"
      using inv Receive by (simp add: inv_sync_def all_finished_sent)
    moreover have "length (ch s) + length (recvd s) = length (filter has_sent (tasks s))"
      and "int (length (tasks s)) = NUM_REQUESTS C" and "length (recvd s) = i"
      using inv Receive by (simp_all add: inv_sync_def)
    ultimately have "ch s \<noteq> []" using True by auto
    with Receive True show ?thesis
      by (auto simp: remaining_def main_step_def split: list.splits)
  next
    case False
    with Receive inv show ?thesis
      by (auto simp: remaining_def main_step_def inv_sync_def)
  qed
qed (use assms in \<open>auto simp: remaining_def main_step_def crash_def inv_sync_def\<close>)

lemma run_progress:
  assumes "s = run C t0 sched" and "crashed s = None" and "mpc s \<noteq> Exited"
  shows "\<exists>a. crashed (step C (a, 0) s) \<noteq> None \<or> remaining C (step C (a, 0) s) < remaining C s"
proof -
  have inv: "inv_sync C s" using assms(1) by (simp add: inv_sync_run)
  note now = step_now [OF assms(2,3)]
  show ?thesis
  proof (cases "mpc s = Wait \<and> wg s \<noteq> 0")
    case False
    then have "mpc s \<noteq> Wait \<or> wg s = 0" by blast
    from main_step_progress [OF inv assms(3) this] now show ?thesis by metis
  next
    case True
    have "wg s = int (length (filter (\<lambda>t. \<not> is_finished t) (tasks s)))"
      using inv by (simp add: inv_sync_def)
    with True have "filter (\<lambda>t. \<not> is_finished t) (tasks s) \<noteq> []" by auto
    then obtain j where "j < length (tasks s)" and "\<not> is_finished (tasks s ! j)"
      using unfinished_task by blast
    from task_step_progress [OF inv this] now show ?thesis by metis
  qed
qed

lemma remaining_zero: "remaining C s = 0 \<Longrightarrow> mpc s = Exited"
  by (cases "mpc s") (simp_all add: remaining_def)

end
